theory Spec2Isabelle
  imports
    Main
    "HOL-Library.AList"
    "HOL-Library.Char_ord"
    "HOL-Library.List_Lexorder"
    "HOL-Library.Multiset"
begin

section \<open>Data model\<close>

text \<open>
  The realtime chat server keeps three pieces of state: the sockets that are currently
  connected (each with the \<open>userId\<close> property the \<open>join\<close> handler sets on it and the rooms it
  has joined), the process-wide \<open>onlineUsers\<close> map from user id to socket id, and the
  \<open>Message\<close> collection of the database.

  JavaScript strings are modelled as \<open>string\<close>, one \<open>char\<close> per code unit, ordered
  lexicographically by code unit as the default comparison of \<open>Array.prototype.sort\<close> orders
  strings. A payload field that may be absent is a \<open>string option\<close>; \<open>None\<close> is
  \<open>undefined\<close>.
\<close>

text \<open>The payload of \<open>sendMessage\<close>, as the client sends it.\<close>

record messageData =
  senderId :: "string option"
  receiverId :: "string option"
  conversationId :: "string option"
  body :: string
  timestamp :: "int option"

text \<open>A \<open>Message\<close> document.\<close>

record message =
  m_senderId :: "string option"
  m_receiverId :: "string option"
  m_conversationId :: "string option"
  m_body :: string
  m_timestamp :: int

text \<open>
  Per-socket state: \<open>socket.userId\<close> and the rooms joined with \<open>socket.join\<close>. Every socket
  is, besides, a member of the room named by its own id; \<open>in_room\<close> accounts for that.
\<close>

record session =
  userId :: "string option"
  rooms :: "string set"

text \<open>
  The server. \<open>sockets\<close> lists the connected sockets by id in connection order;
  \<open>onlineUsers\<close> is the \<open>Map\<close> of the source, kept as an association list in insertion
  order since \<open>Array.from(onlineUsers.keys())\<close> exposes that order; \<open>messages\<close> is the
  collection in insertion order.
\<close>

record server =
  sockets :: "(string \<times> session) list"
  onlineUsers :: "(string \<times> string) list"
  messages :: "message list"

text \<open>
  What the handlers cannot decide themselves: the clock that supplies a default
  timestamp, and whether the database operation of the handler succeeds.
\<close>

record env =
  now :: int
  db_ok :: bool

text \<open>Events the server emits, each paired with the id of the socket that receives it.\<close>

datatype event =
    OnlineUsers "string list"
  | Message message
  | MessageError string
  | PreviousMessages string "message list"
  | FetchError string

type_synonym emission = "string \<times> event"

section \<open>Helpers\<close>

text \<open>JavaScript truthiness of an optional string: \<open>undefined\<close> and \<open>""\<close> are falsy.\<close>

definition truthy :: "string option \<Rightarrow> bool" where
  "truthy v = (case v of None \<Rightarrow> False | Some s \<Rightarrow> s \<noteq> [])"

text \<open>\<open>Array.prototype.join\<close> with a separator.\<close>

fun join_array :: "string \<Rightarrow> string list \<Rightarrow> string" where
  "join_array sep [] = []"
| "join_array sep [x] = x"
| "join_array sep (x # y # ys) = x @ sep @ join_array sep (y # ys)"

text \<open>\<open>[userId1, userId2].sort().join('-')\<close>\<close>

definition getConversationId :: "string \<Rightarrow> string \<Rightarrow> string" where
  "getConversationId userId1 userId2 = join_array ''-'' (sort [userId1, userId2])"

text \<open>Room membership of the socket with id \<open>sid\<close>.\<close>

definition in_room :: "string \<Rightarrow> session \<Rightarrow> string \<Rightarrow> bool" where
  "in_room sid sock room = (room = sid \<or> room \<in> rooms sock)"

text \<open>\<open>io.emit(ev)\<close>: to every connected socket.\<close>

definition io_emit :: "server \<Rightarrow> event \<Rightarrow> emission list" where
  "io_emit s ev = map (\<lambda>(sid, sock). (sid, ev)) (sockets s)"

text \<open>
  \<open>io.to(room).emit(ev)\<close>: to every connected socket in the room. The recipients are
  listed in connection order; which sockets receive the event, and how often, is what
  the list stands for, not the order of the writes.
\<close>

definition io_to :: "server \<Rightarrow> string \<Rightarrow> event \<Rightarrow> emission list" where
  "io_to s room ev =
     map (\<lambda>(sid, sock). (sid, ev)) (filter (\<lambda>(sid, sock). in_room sid sock room) (sockets s))"

text \<open>\<open>onlineUsers.get(userId)\<close>\<close>

definition lookup :: "server \<Rightarrow> string \<Rightarrow> string option" where
  "lookup s u = map_of (onlineUsers s) u"

text \<open>The \<open>userId\<close> a connected socket is bound to, if any.\<close>

definition bound_user :: "server \<Rightarrow> string \<Rightarrow> string option" where
  "bound_user s sid = (case map_of (sockets s) sid of None \<Rightarrow> None | Some sock \<Rightarrow> userId sock)"

definition connected :: "server \<Rightarrow> string \<Rightarrow> bool" where
  "connected s sid = (map_of (sockets s) sid \<noteq> None)"

text \<open>
  Modelled from the spec: the \<open>Message\<close> model (\<open>models/Message\<close>) is not among the sources.
  The document takes the sender, receiver, conversation id and body of the payload, and
  the timestamp of the payload or, if absent, the current time.
\<close>

definition new_Message :: "env \<Rightarrow> messageData \<Rightarrow> message" where
  "new_Message e d =
     \<lparr> m_senderId = senderId d,
       m_receiverId = receiverId d,
       m_conversationId = conversationId d,
       m_body = body d,
       m_timestamp = (case timestamp d of None \<Rightarrow> now e | Some t \<Rightarrow> t) \<rparr>"

text \<open>
  \<open>Message.find({ conversationId }).sort({ timestamp: 1 }).limit(n)\<close>. Documents with
  equal timestamps keep their insertion order.
\<close>

definition find_sort_limit :: "string \<Rightarrow> nat \<Rightarrow> message list \<Rightarrow> message list" where
  "find_sort_limit cid n ms =
     take n (sort_key m_timestamp (filter (\<lambda>m. m_conversationId m = Some cid) ms))"

text \<open>\<open>Message.find().sort({ timestamp: -1 })\<close>\<close>

definition find_sort_desc :: "message list \<Rightarrow> message list" where
  "find_sort_desc ms = sort_key (\<lambda>m. - m_timestamp m) ms"

section \<open>Socket event handlers\<close>

text \<open>
  Each handler takes the id of the socket it runs on and the server state, and returns
  the emissions it makes, in order, with the new state. A handler runs only on a
  connected socket. Where the listener destructures its parameter, the handler below is
  the body of the listener and takes the field the pattern has read from a payload;
  the match of the pattern against what arrives follows in the next section.
\<close>

text \<open>\<open>io.on('connection', ...)\<close>: a new socket, unbound and in no conversation room.\<close>

definition on_connection :: "string \<Rightarrow> server \<Rightarrow> emission list \<times> server" where
  "on_connection sid s =
     ([], s\<lparr>sockets := sockets s @ [(sid, \<lparr>userId = None, rooms = {}\<rparr>)]\<rparr>)"

text \<open>The body of \<open>socket.on('join', ({ userId }) => ...)\<close>, given \<open>userId\<close>.\<close>

definition on_join :: "string \<Rightarrow> string option \<Rightarrow> server \<Rightarrow> emission list \<times> server" where
  "on_join sid uid s =
     (case uid of
        None \<Rightarrow> ([], s)
      | Some u \<Rightarrow>
          if u = [] then ([], s)
          else
            let s1 = s\<lparr>sockets := AList.map_entry sid (\<lambda>sock. sock\<lparr>userId := Some u\<rparr>) (sockets s),
                       onlineUsers := AList.update u sid (onlineUsers s)\<rparr>
            in (io_emit s1 (OnlineUsers (map fst (onlineUsers s1))), s1))"

text \<open>
  \<open>socket.on('disconnect', ...)\<close>. The socket has left the set of connected sockets and
  all its rooms when the handler runs.
\<close>

definition on_disconnect :: "string \<Rightarrow> server \<Rightarrow> emission list \<times> server" where
  "on_disconnect sid s =
     (case map_of (sockets s) sid of
        None \<Rightarrow> ([], s)
      | Some sock \<Rightarrow>
          let s1 = s\<lparr>sockets := AList.delete sid (sockets s)\<rparr> in
          (case userId sock of
             None \<Rightarrow> ([], s1)
           | Some u \<Rightarrow>
               if u = [] then ([], s1)
               else
                 let s2 = s1\<lparr>onlineUsers := AList.delete u (onlineUsers s1)\<rparr>
                 in (io_emit s2 (OnlineUsers (map fst (onlineUsers s2))), s2)))"

text \<open>
  The body of \<open>socket.on('joinConversation', ({ conversationId }) => ...)\<close>, given
  \<open>conversationId\<close>.
\<close>

definition on_joinConversation ::
  "string \<Rightarrow> string option \<Rightarrow> server \<Rightarrow> emission list \<times> server" where
  "on_joinConversation sid cid s =
     (case cid of
        None \<Rightarrow> ([], s)
      | Some c \<Rightarrow>
          if c = [] then ([], s)
          else ([], s\<lparr>sockets :=
                  AList.map_entry sid (\<lambda>sock. sock\<lparr>rooms := insert c (rooms sock)\<rparr>) (sockets s)\<rparr>))"

text \<open>
  \<open>socket.on('sendMessage', async (messageData) => ...)\<close>. \<open>message.save()\<close> throws when
  the database fails; the \<open>catch\<close> block then answers the sender.
\<close>

definition on_sendMessage ::
  "env \<Rightarrow> string \<Rightarrow> messageData option \<Rightarrow> server \<Rightarrow> emission list \<times> server" where
  "on_sendMessage e sid messageData s =
     (case messageData of
        None \<Rightarrow> ([], s)
      | Some d \<Rightarrow>
          (case (senderId d, receiverId d) of
             (Some snd_id, Some rcv_id) \<Rightarrow>
               if snd_id = [] \<or> rcv_id = [] then ([], s)
               else
                 let cid = getConversationId snd_id rcv_id;
                     d1 = d\<lparr>conversationId := Some cid\<rparr>;
                     msg = new_Message e d1
                 in
                   if \<not> db_ok e then ([(sid, MessageError ''Failed to send message'')], s)
                   else
                     let s1 = s\<lparr>messages := messages s @ [msg]\<rparr>;
                         to_group = io_to s1 cid (Message msg);
                         to_receiver =
                           (case lookup s1 rcv_id of
                              None \<Rightarrow> []
                            | Some receiverSocketId \<Rightarrow>
                                if receiverSocketId = [] then []
                                else io_to s1 receiverSocketId (Message msg))
                     in (to_group @ to_receiver, s1)
           | _ \<Rightarrow> ([], s)))"

text \<open>
  The body of \<open>socket.on('fetchMessages', async ({ conversationId }) => ...)\<close>, given
  \<open>conversationId\<close>.
\<close>

definition on_fetchMessages ::
  "env \<Rightarrow> string \<Rightarrow> string option \<Rightarrow> server \<Rightarrow> emission list \<times> server" where
  "on_fetchMessages e sid cid s =
     (case cid of
        None \<Rightarrow> ([], s)
      | Some c \<Rightarrow>
          if c = [] then ([], s)
          else if \<not> db_ok e then ([(sid, FetchError ''Failed to fetch messages'')], s)
          else ([(sid, PreviousMessages c (find_sort_limit c 50 (messages s)))], s))"

section \<open>Listeners and their payloads\<close>

text \<open>
  The listeners of \<open>join\<close>, \<open>joinConversation\<close> and \<open>fetchMessages\<close> take their
  parameter by a destructuring pattern, \<open>({ userId })\<close> or \<open>({ conversationId })\<close>. The
  pattern is matched before the first statement of the body runs: with no payload
  (\<open>undefined\<close> or \<open>null\<close>) the match throws a \<open>TypeError\<close>, which nothing catches (the
  \<open>try\<close> of \<open>fetchMessages\<close> begins inside the body), and the server process ends. A
  payload is therefore an option: \<open>None\<close> is no payload, \<open>Some f\<close> a payload whose field
  is \<open>f\<close>, itself \<open>None\<close> when the payload has no such field.

  The listener of \<open>sendMessage\<close> takes its parameter whole and tests it; it is
  \<open>on_sendMessage\<close> as it stands.
\<close>

datatype error = TypeError

text \<open>\<open>socket.on('join', ({ userId }) => ...)\<close>, pattern and body.\<close>

definition socket_on_join ::
  "string \<Rightarrow> string option option \<Rightarrow> server \<Rightarrow> error + emission list \<times> server" where
  "socket_on_join sid payload s =
     (case payload of
        None \<Rightarrow> Inl TypeError
      | Some uid \<Rightarrow> Inr (on_join sid uid s))"

text \<open>\<open>socket.on('joinConversation', ({ conversationId }) => ...)\<close>, pattern and body.\<close>

definition socket_on_joinConversation ::
  "string \<Rightarrow> string option option \<Rightarrow> server \<Rightarrow> error + emission list \<times> server" where
  "socket_on_joinConversation sid payload s =
     (case payload of
        None \<Rightarrow> Inl TypeError
      | Some cid \<Rightarrow> Inr (on_joinConversation sid cid s))"

text \<open>\<open>socket.on('fetchMessages', async ({ conversationId }) => ...)\<close>, pattern and body.\<close>

definition socket_on_fetchMessages ::
  "env \<Rightarrow> string \<Rightarrow> string option option \<Rightarrow> server \<Rightarrow> error + emission list \<times> server" where
  "socket_on_fetchMessages e sid payload s =
     (case payload of
        None \<Rightarrow> Inl TypeError
      | Some cid \<Rightarrow> Inr (on_fetchMessages e sid cid s))"

section \<open>The server as a transition system\<close>

datatype input =
    Connection string
  | Join string "string option"
  | Disconnect string
  | JoinConversation string "string option"
  | SendMessage string "messageData option"
  | FetchMessages string "string option"

text \<open>
  One event whose payload, where the listener destructures it, is present. A new
  connection has a fresh id; every other event reaches its handler only on a connected
  socket.
\<close>

fun step :: "env \<Rightarrow> input \<Rightarrow> server \<Rightarrow> emission list \<times> server" where
  "step e (Connection sid) s = (if connected s sid then ([], s) else on_connection sid s)"
| "step e (Join sid uid) s = (if connected s sid then on_join sid uid s else ([], s))"
| "step e (Disconnect sid) s = (if connected s sid then on_disconnect sid s else ([], s))"
| "step e (JoinConversation sid cid) s =
     (if connected s sid then on_joinConversation sid cid s else ([], s))"
| "step e (SendMessage sid d) s =
     (if connected s sid then on_sendMessage e sid d s else ([], s))"
| "step e (FetchMessages sid cid) s =
     (if connected s sid then on_fetchMessages e sid cid s else ([], s))"

text \<open>A run: the emissions of all events in order, and the final state.\<close>

fun run :: "env \<Rightarrow> input list \<Rightarrow> server \<Rightarrow> emission list \<times> server" where
  "run e [] s = ([], s)"
| "run e (i # is) s =
     (let (out1, s1) = step e i s; (out2, s2) = run e is s1 in (out1 @ out2, s2))"

text \<open>The server at start: no socket, nobody online, and whatever the database holds.\<close>

definition init :: "message list \<Rightarrow> server" where
  "init ms = \<lparr>sockets = [], onlineUsers = [], messages = ms\<rparr>"

section \<open>HTTP history route\<close>

text \<open>
  \<open>router.get('/', authenticateJWT, ...)\<close> of \<open>routes/chatRoutes.js\<close>. The middleware
  \<open>authenticateJWT\<close> is not among the sources and is a parameter; when it rejects the
  request the handler does not run. The handler has no \<open>catch\<close>: a failing query leaves
  the request without a response.
\<close>

datatype response = Rejected | NoResponse | Json "message list"

definition chat_get :: "('req \<Rightarrow> bool) \<Rightarrow> env \<Rightarrow> 'req \<Rightarrow> server \<Rightarrow> response" where
  "chat_get authenticateJWT e req s =
     (if \<not> authenticateJWT req then Rejected
      else if \<not> db_ok e then NoResponse
      else Json (find_sort_desc (messages s)))"

section \<open>Example states\<close>

text \<open>Concrete environments and states on which the theorems below are instantiated.\<close>

definition env_ok :: env where
  "env_ok = \<lparr>now = 100, db_ok = True\<rparr>"

definition env_down :: env where
  "env_down = \<lparr>now = 100, db_ok = False\<rparr>"

definition two_sockets :: server where
  "two_sockets = snd (run env_ok [Connection ''h1'', Connection ''h2''] (init []))"

definition bound_socket :: server where
  "bound_socket = snd (run env_ok [Join ''h1'' (Some ''u1'')] two_sockets)"

definition hello :: messageData where
  "hello = \<lparr>senderId = Some ''a'', receiverId = Some ''b'', conversationId = None,
            body = ''hi'', timestamp = None\<rparr>"

definition hello_message :: message where
  "hello_message = \<lparr>m_senderId = Some ''a'', m_receiverId = Some ''b'',
     m_conversationId = Some ''a-b'', m_body = ''hi'', m_timestamp = 100\<rparr>"

definition receiver_online :: server where
  "receiver_online =
     snd (run env_ok [Connection ''ha'', Connection ''hb'', Join ''hb'' (Some ''b'')] (init []))"

definition receiver_in_group :: server where
  "receiver_in_group = snd (step env_ok (JoinConversation ''hb'' (Some ''a-b'')) receiver_online)"

text \<open>Message number \<open>t\<close> of the conversation of \<open>a\<close> and \<open>b\<close>, sent at time \<open>t\<close>.\<close>

definition msg_at :: "nat \<Rightarrow> message" where
  "msg_at t = \<lparr>m_senderId = Some ''a'', m_receiverId = Some ''b'',
     m_conversationId = Some ''a-b'', m_body = ''hi'', m_timestamp = int t\<rparr>"

text \<open>The first \<open>n\<close> messages of that conversation, oldest first.\<close>

definition history :: "nat \<Rightarrow> message list" where
  "history n = map msg_at [1..<Suc n]"

section \<open>Conversation addressing\<close>

lemma getConversationId_if:
  "getConversationId a b = (if a \<le> b then a @ ''-'' @ b else b @ ''-'' @ a)"
  by (simp add: getConversationId_def)

lemma getConversationId_comm: "getConversationId a b = getConversationId b a"
proof -
  consider "a = b" | "a < b" | "b < a" using less_linear[of a b] by blast
  then show ?thesis
  proof cases
    case 1 then show ?thesis by simp
  next
    case 2
    then have "a \<le> b" "\<not> b \<le> a" using less_le_not_le[of a b] by blast+
    then show ?thesis by (simp only: getConversationId_if if_True if_False)
  next
    case 3
    then have "b \<le> a" "\<not> a \<le> b" using less_le_not_le[of b a] by blast+
    then show ?thesis by (simp only: getConversationId_if if_True if_False)
  qed
qed

text \<open>A string without the separator is recovered from what follows it.\<close>

lemma separator_split:
  "CHR ''-'' \<notin> set a \<Longrightarrow> CHR ''-'' \<notin> set c \<Longrightarrow>
   a @ CHR ''-'' # b = c @ CHR ''-'' # d \<Longrightarrow> a = c \<and> b = d"
proof (induction a arbitrary: c)
  case Nil
  then show ?case by (cases c) simp_all
next
  case (Cons x xs)
  show ?case
  proof (cases c)
    case Nil
    with Cons.prems show ?thesis by simp
  next
    case (Cons y ys)
    with Cons.prems have "x = y" and eq: "xs @ CHR ''-'' # b = ys @ CHR ''-'' # d"
      and "CHR ''-'' \<notin> set xs" "CHR ''-'' \<notin> set ys" by simp_all
    with Cons.IH[of ys] have "xs = ys \<and> b = d" by blast
    with \<open>x = y\<close> Cons show ?thesis by simp
  qed
qed

lemma getConversationId_shape:
  "\<exists>x y. {x, y} = {a, b} \<and> getConversationId a b = x @ CHR ''-'' # y"
  by (cases "a \<le> b") (auto simp only: getConversationId_if if_True if_False append.simps)

lemma getConversationId_inj:
  assumes a: "CHR ''-'' \<notin> set a" and b: "CHR ''-'' \<notin> set b"
    and c: "CHR ''-'' \<notin> set c" and d: "CHR ''-'' \<notin> set d"
    and eq: "getConversationId a b = getConversationId c d"
  shows "{a, b} = {c, d}"
proof -
  obtain x y where xy: "{x, y} = {a, b}" "getConversationId a b = x @ CHR ''-'' # y"
    using getConversationId_shape[of a b] by blast
  obtain u v where uv: "{u, v} = {c, d}" "getConversationId c d = u @ CHR ''-'' # v"
    using getConversationId_shape[of c d] by blast
  from xy(1) a b have "CHR ''-'' \<notin> set x" by (metis insert_iff singletonD)
  moreover from uv(1) c d have "CHR ''-'' \<notin> set u" by (metis insert_iff singletonD)
  moreover from xy(2) uv(2) eq have "x @ CHR ''-'' # y = u @ CHR ''-'' # v" by simp
  ultimately have "x = u \<and> y = v" by (rule separator_split)
  with xy(1) uv(1) show ?thesis by simp
qed

text \<open>
  C7. The conversation id does not depend on the order of the two identities, and for
  identities without the separator \<open>-\<close> it determines the unordered pair: two pairs with
  the same conversation id are the same pair.
\<close>

theorem C7_conversationId_commutative_injective:
  "getConversationId a b = getConversationId b a \<and>
   (CHR ''-'' \<notin> set a \<and> CHR ''-'' \<notin> set b \<and> CHR ''-'' \<notin> set c \<and> CHR ''-'' \<notin> set d \<and>
    getConversationId a b = getConversationId c d \<longrightarrow> {a, b} = {c, d})"
  using getConversationId_comm[of a b] getConversationId_inj[of a b c d] by blast

theorem C7_witness:
  "CHR ''-'' \<notin> set ''bob'' \<and> CHR ''-'' \<notin> set ''alice'' \<and>
   getConversationId ''bob'' ''alice'' = ''alice-bob'' \<and>
   getConversationId ''alice'' ''bob'' = ''alice-bob'' \<and>
   {''bob'', ''alice''} = {''alice'', ''bob''}"
  using C7_conversationId_commutative_injective[of "''bob''" "''alice''" "''alice''" "''bob''"]
  by (simp add: getConversationId_def)

section \<open>Presence registry and socket binding\<close>

lemmas eval_defs = init_def connected_def on_connection_def on_join_def on_disconnect_def
  on_joinConversation_def lookup_def bound_user_def io_emit_def io_to_def in_room_def Let_def
  two_sockets_def env_ok_def env_down_def

lemma snd_run_Cons: "snd (run e (i # is) s) = snd (run e is (snd (step e i s)))"
  by (simp split: prod.splits)

lemma snd_run_Nil: "snd (run e [] s) = s"
  by simp

lemma lookup_on_join:
  "u \<noteq> [] \<Longrightarrow> lookup (snd (on_join h (Some u) s)) v = (if v = u then Some h else lookup s v)"
  by (simp add: on_join_def lookup_def Let_def AList.update_conv')

lemma sockets_on_join:
  "u \<noteq> [] \<Longrightarrow> map_of (sockets (snd (on_join h (Some u) s))) =
     (map_of (sockets s))(h := (case map_of (sockets s) h of None \<Rightarrow> None
                                 | Some sock \<Rightarrow> Some (sock\<lparr>userId := Some u\<rparr>)))"
  by (simp add: on_join_def Let_def AList.map_of_map_entry)

lemma on_join_falsy: "\<not> truthy uid \<Longrightarrow> on_join h uid s = ([], s)"
  by (simp add: on_join_def truthy_def split: option.splits)

lemma connected_on_join: "connected (snd (on_join h uid s)) h' = connected s h'"
proof (cases "truthy uid")
  case False
  then show ?thesis by (simp add: on_join_falsy)
next
  case True
  then obtain u where u: "uid = Some u" "u \<noteq> []"
    by (auto simp: truthy_def split: option.splits)
  show ?thesis unfolding connected_def u(1)
    by (simp add: sockets_on_join[OF u(2)] split: option.splits)
qed

lemma bound_user_on_join:
  "u \<noteq> [] \<Longrightarrow> connected s h \<Longrightarrow>
   bound_user (snd (on_join h (Some u) s)) h' = (if h' = h then Some u else bound_user s h')"
  unfolding bound_user_def connected_def
  by (auto simp add: sockets_on_join split: option.splits)

lemma lookup_on_disconnect:
  "lookup (snd (on_disconnect h s)) v =
     (if truthy (bound_user s h) \<and> bound_user s h = Some v then None else lookup s v)"
  by (auto simp add: on_disconnect_def lookup_def bound_user_def truthy_def Let_def
      AList.delete_conv' split: option.splits)

lemma sockets_on_disconnect:
  "map_of (sockets (snd (on_disconnect h s))) = (map_of (sockets s))(h := None)"
  by (auto simp add: on_disconnect_def Let_def AList.delete_conv' split: option.splits)

lemma connected_on_disconnect:
  "connected (snd (on_disconnect h s)) h' = (h' \<noteq> h \<and> connected s h')"
  unfolding connected_def by (simp add: sockets_on_disconnect)

lemma bound_user_on_disconnect:
  "bound_user (snd (on_disconnect h s)) h' = (if h' = h then None else bound_user s h')"
  unfolding bound_user_def by (simp add: sockets_on_disconnect)

lemma sockets_on_sendMessage: "sockets (snd (on_sendMessage e sid d s)) = sockets s"
  by (simp add: on_sendMessage_def Let_def split: option.splits prod.splits)

lemma sockets_on_fetchMessages: "sockets (snd (on_fetchMessages e sid c s)) = sockets s"
  by (simp add: on_fetchMessages_def split: option.splits)

lemma bound_user_on_joinConversation:
  "bound_user (snd (on_joinConversation sid c s)) h = bound_user s h"
  by (simp add: on_joinConversation_def bound_user_def AList.map_of_map_entry
      split: option.splits)

lemma bound_user_on_connection:
  "connected s h \<Longrightarrow> bound_user (snd (on_connection sid s)) h = bound_user s h"
  by (auto simp add: on_connection_def bound_user_def connected_def map_add_def
      split: option.splits)

text \<open>Only a \<open>join\<close> with a non-empty user id on the socket itself touches its binding.\<close>

lemma bound_user_step_other:
  assumes "connected s h" and "connected (snd (step e i s)) h"
    and "\<nexists>u. i = Join h (Some u) \<and> u \<noteq> []"
  shows "bound_user (snd (step e i s)) h = bound_user s h"
proof (cases i)
  case (Connection sid)
  then show ?thesis using assms(1) by (simp add: bound_user_on_connection)
next
  case (Join sid uid)
  show ?thesis
  proof (cases "truthy uid \<and> connected s sid")
    case False
    then show ?thesis using Join by (auto simp add: on_join_falsy)
  next
    case True
    then obtain u where u: "uid = Some u" "u \<noteq> []"
      by (auto simp: truthy_def split: option.splits)
    with assms(3) Join have "sid \<noteq> h" by blast
    then show ?thesis using Join True u by (simp add: bound_user_on_join)
  qed
next
  case (Disconnect sid)
  then show ?thesis using assms(2)
    by (auto simp add: bound_user_on_disconnect connected_on_disconnect split: if_splits)
next
  case (JoinConversation sid c)
  then show ?thesis by (simp add: bound_user_on_joinConversation)
next
  case (SendMessage sid d)
  then show ?thesis by (simp add: bound_user_def sockets_on_sendMessage)
next
  case (FetchMessages sid c)
  then show ?thesis by (simp add: bound_user_def sockets_on_fetchMessages)
qed

text \<open>
  C1, as stated, fails. Two sockets announce the same user; the second announce wins.
  When the first socket then disconnects, the handler deletes the user's entry although
  it names the second socket: the lookup gives nothing, not the second handle.
\<close>

theorem C1_counterexample:
  "lookup (snd (run env_ok [Connection ''h1'', Connection ''h2'', Join ''h1'' (Some ''U''),
                  Join ''h2'' (Some ''U'')] (init []))) ''U'' = Some ''h2'' \<and>
   lookup (snd (run env_ok [Connection ''h1'', Connection ''h2'', Join ''h1'' (Some ''U''),
                  Join ''h2'' (Some ''U''), Disconnect ''h1''] (init []))) ''U'' = None"
  by (simp add: eval_defs)

text \<open>
  C1, amended. After \<open>h1\<close> and then \<open>h2\<close> announce user \<open>U\<close>, the lookup of \<open>U\<close> gives
  \<open>h2\<close>. The disconnect of \<open>h1\<close> removes the entry of \<open>U\<close>, whichever handle it names, so
  the lookup gives nothing; the later disconnect of \<open>h2\<close> leaves it so.
\<close>

theorem C1_withdraw_removes_entry:
  assumes "connected s h1" "connected s h2" "U \<noteq> []"
  shows "let s2 = snd (run e [Join h1 (Some U), Join h2 (Some U)] s);
             s3 = snd (step e (Disconnect h1) s2);
             s4 = snd (step e (Disconnect h2) s3)
         in lookup s2 U = Some h2 \<and> lookup s3 U = None \<and> lookup s4 U = None"
proof -
  define s1 where "s1 = snd (on_join h1 (Some U) s)"
  define s2 where "s2 = snd (on_join h2 (Some U) s1)"
  define s3 where "s3 = snd (on_disconnect h1 s2)"
  define s4 where "s4 = snd (step e (Disconnect h2) s3)"
  have c1: "connected s1 h1" "connected s1 h2"
    using assms by (simp_all add: s1_def connected_on_join)
  have c2: "connected s2 h1" using c1 by (simp add: s2_def connected_on_join)
  have run: "snd (run e [Join h1 (Some U), Join h2 (Some U)] s) = s2"
    using assms(1) c1(2) unfolding snd_run_Cons snd_run_Nil by (simp add: s1_def s2_def)
  have l2: "lookup s2 U = Some h2" using assms(3) by (simp add: s2_def lookup_on_join)
  have b1: "bound_user s1 h1 = Some U" using assms by (simp add: s1_def bound_user_on_join)
  have b2: "bound_user s2 h1 = Some U"
    using assms c1 b1 by (simp add: s2_def bound_user_on_join)
  have st3: "snd (step e (Disconnect h1) s2) = s3" using c2 by (simp add: s3_def)
  have l3: "lookup s3 U = None"
    using b2 assms(3) by (simp add: s3_def lookup_on_disconnect truthy_def)
  have l4: "lookup s4 U = None" using l3 by (simp add: s4_def lookup_on_disconnect)
  show ?thesis unfolding Let_def run st3 using l2 l3 l4 unfolding s4_def by blast
qed

theorem C1_witness:
  "connected two_sockets ''h1'' \<and> connected two_sockets ''h2'' \<and> ''U'' \<noteq> [] \<and>
   lookup (snd (run env_ok [Join ''h1'' (Some ''U''), Join ''h2'' (Some ''U'')] two_sockets))
     ''U'' = Some ''h2'' \<and>
   lookup (snd (step env_ok (Disconnect ''h1'')
      (snd (run env_ok [Join ''h1'' (Some ''U''), Join ''h2'' (Some ''U'')] two_sockets))))
     ''U'' = None"
proof -
  have a: "connected two_sockets ''h1''" and b: "connected two_sockets ''h2''"
    by (simp_all add: eval_defs)
  have c: "''U'' \<noteq> []" by simp
  show ?thesis
    using a b c C1_withdraw_removes_entry[OF a b c, of env_ok] unfolding Let_def by blast
qed

text \<open>
  C10. A connected socket \<open>h\<close> announces \<open>u1\<close> and then a different \<open>u2\<close>. Both users
  are then looked up to \<open>h\<close>. The disconnect of \<open>h\<close> removes the entry of \<open>u2\<close> only: \<open>u1\<close>
  stays in the registry with the handle of a socket that is gone, and if no other
  socket was bound to \<open>u1\<close>, no socket is bound to it now.
\<close>

theorem C10_rebind_leaves_stale_entry:
  assumes "connected s h" "u1 \<noteq> []" "u2 \<noteq> []" "u1 \<noteq> u2"
  shows "let s2 = snd (run e [Join h (Some u1), Join h (Some u2)] s);
             s3 = snd (step e (Disconnect h) s2)
         in lookup s2 u1 = Some h \<and> lookup s2 u2 = Some h \<and>
            lookup s3 u2 = None \<and> lookup s3 u1 = Some h \<and> \<not> connected s3 h \<and>
            ((\<forall>h'. h' \<noteq> h \<longrightarrow> bound_user s h' \<noteq> Some u1) \<longrightarrow>
             (\<forall>h'. bound_user s3 h' \<noteq> Some u1))"
proof -
  define s1 where "s1 = snd (on_join h (Some u1) s)"
  define s2 where "s2 = snd (on_join h (Some u2) s1)"
  define s3 where "s3 = snd (on_disconnect h s2)"
  have c1: "connected s1 h" using assms(1) by (simp add: s1_def connected_on_join)
  have c2: "connected s2 h" using c1 by (simp add: s2_def connected_on_join)
  have run: "snd (run e [Join h (Some u1), Join h (Some u2)] s) = s2"
    using assms(1) c1 unfolding snd_run_Cons snd_run_Nil by (simp add: s1_def s2_def)
  have st3: "snd (step e (Disconnect h) s2) = s3" using c2 by (simp add: s3_def)
  have l1: "lookup s1 u1 = Some h" using assms(2) by (simp add: s1_def lookup_on_join)
  have l2: "lookup s2 u1 = Some h" "lookup s2 u2 = Some h"
    using assms(3,4) l1 by (simp_all add: s2_def lookup_on_join)
  have b2: "bound_user s2 h = Some u2"
    using assms(3) c1 by (simp add: s2_def bound_user_on_join)
  have l3: "lookup s3 u2 = None" "lookup s3 u1 = Some h"
    using b2 l2 assms(3,4) by (simp_all add: s3_def lookup_on_disconnect truthy_def)
  have c3: "\<not> connected s3 h" by (simp add: s3_def connected_on_disconnect)
  have b3: "bound_user s3 h' = (if h' = h then None else bound_user s h')" for h'
    using assms(1,2,3) c1
    by (simp add: s3_def s2_def s1_def bound_user_on_disconnect bound_user_on_join)
  have nb: "(\<forall>h'. h' \<noteq> h \<longrightarrow> bound_user s h' \<noteq> Some u1) \<longrightarrow>
            (\<forall>h'. bound_user s3 h' \<noteq> Some u1)"
    by (simp add: b3)
  show ?thesis unfolding Let_def run st3 using l2 l3 c3 nb by blast
qed

theorem C10_witness:
  "connected two_sockets ''h1'' \<and> ''u1'' \<noteq> [] \<and> ''u2'' \<noteq> [] \<and> ''u1'' \<noteq> ''u2'' \<and>
   (\<nexists>h'. h' \<noteq> ''h1'' \<and> bound_user two_sockets h' = Some ''u1'') \<and>
   lookup (snd (step env_ok (Disconnect ''h1'')
      (snd (run env_ok [Join ''h1'' (Some ''u1''), Join ''h1'' (Some ''u2'')] two_sockets))))
     ''u1'' = Some ''h1'' \<and>
   (\<forall>h'. bound_user (snd (step env_ok (Disconnect ''h1'')
      (snd (run env_ok [Join ''h1'' (Some ''u1''), Join ''h1'' (Some ''u2'')] two_sockets))))
     h' \<noteq> Some ''u1'')"
proof -
  have a: "connected two_sockets ''h1''" by (simp add: eval_defs)
  have b: "''u1'' \<noteq> []" "''u2'' \<noteq> []" "''u1'' \<noteq> ''u2''" by simp_all
  have c: "\<forall>h'. h' \<noteq> ''h1'' \<longrightarrow> bound_user two_sockets h' \<noteq> Some ''u1''"
    by (simp add: eval_defs)
  show ?thesis
    using a b c C10_rebind_leaves_stale_entry[OF a b, of env_ok] unfolding Let_def by blast
qed

text \<open>
  C6, as stated, fails: a socket bound to \<open>u1\<close> that announces \<open>u2\<close> is bound to \<open>u2\<close>.
\<close>

theorem C6_counterexample:
  "bound_user (snd (run env_ok [Connection ''h'', Join ''h'' (Some ''u1'')] (init [])))
     ''h'' = Some ''u1'' \<and>
   bound_user (snd (run env_ok [Connection ''h'', Join ''h'' (Some ''u1''),
                      Join ''h'' (Some ''u2'')] (init []))) ''h'' = Some ''u2''"
  by (simp add: eval_defs)

text \<open>
  C6, amended. While a socket stays connected, every \<open>join\<close> on it with a non-empty user
  id binds it to that user id, bound before or not; no other event changes its binding;
  and a bound socket does not become unbound.
\<close>

theorem C6_binding_follows_last_join:
  assumes "connected s h" and "connected (snd (step e i s)) h"
  shows "(\<forall>u. i = Join h (Some u) \<and> u \<noteq> [] \<longrightarrow> bound_user (snd (step e i s)) h = Some u) \<and>
         ((\<nexists>u. i = Join h (Some u) \<and> u \<noteq> []) \<longrightarrow>
            bound_user (snd (step e i s)) h = bound_user s h) \<and>
         (bound_user s h \<noteq> None \<longrightarrow> bound_user (snd (step e i s)) h \<noteq> None)"
proof -
  have 1: "bound_user (snd (step e i s)) h = Some u" if "i = Join h (Some u)" "u \<noteq> []" for u
    using that assms(1) by (simp add: bound_user_on_join)
  have 2: "bound_user (snd (step e i s)) h = bound_user s h"
    if "\<nexists>u. i = Join h (Some u) \<and> u \<noteq> []"
    using bound_user_step_other[OF assms that] .
  show ?thesis using 1 2 by (metis option.distinct(1))
qed

theorem C6_witness:
  "connected bound_socket ''h1'' \<and>
   connected (snd (step env_ok (Join ''h1'' (Some ''u2'')) bound_socket)) ''h1'' \<and>
   connected (snd (step env_ok (JoinConversation ''h1'' (Some ''u1-u2'')) bound_socket)) ''h1'' \<and>
   bound_user bound_socket ''h1'' = Some ''u1'' \<and>
   bound_user (snd (step env_ok (Join ''h1'' (Some ''u2'')) bound_socket)) ''h1'' = Some ''u2'' \<and>
   bound_user (snd (step env_ok (JoinConversation ''h1'' (Some ''u1-u2'')) bound_socket)) ''h1''
     = Some ''u1''"
proof -
  have a: "connected bound_socket ''h1''" by (simp add: bound_socket_def eval_defs)
  have b: "connected (snd (step env_ok (Join ''h1'' (Some ''u2'')) bound_socket)) ''h1''"
    by (simp add: bound_socket_def eval_defs)
  have c: "connected (snd (step env_ok (JoinConversation ''h1'' (Some ''u1-u2'')) bound_socket))
             ''h1''"
    by (simp add: bound_socket_def eval_defs)
  have d: "bound_user bound_socket ''h1'' = Some ''u1''"
    by (simp add: bound_socket_def eval_defs)
  have e: "\<nexists>u. JoinConversation ''h1'' (Some ''u1-u2'') = Join ''h1'' (Some u) \<and> u \<noteq> []"
    by simp
  show ?thesis
    using a b c d e C6_binding_follows_last_join[OF a b] C6_binding_follows_last_join[OF a c]
    by (metis list.distinct(1))
qed

section \<open>Sending a message\<close>

lemmas send_defs = eval_defs hello_def hello_message_def receiver_online_def
  receiver_in_group_def on_sendMessage_def new_Message_def getConversationId_def truthy_def

text \<open>The handler on a payload that names a sender and a receiver.\<close>

lemma on_sendMessage_valid:
  assumes "senderId d = Some a" "receiverId d = Some b" "a \<noteq> []" "b \<noteq> []"
  shows "on_sendMessage e sid (Some d) s =
     (let cid = getConversationId a b;
          msg = new_Message e (d\<lparr>conversationId := Some cid\<rparr>);
          s1 = s\<lparr>messages := messages s @ [msg]\<rparr>
      in if \<not> db_ok e then ([(sid, MessageError ''Failed to send message'')], s)
         else (io_to s cid (Message msg) @
               (case lookup s b of None \<Rightarrow> []
                | Some h \<Rightarrow> if h = [] then [] else io_to s h (Message msg)), s1))"
  using assms
  by (simp add: on_sendMessage_def Let_def io_to_def lookup_def split: option.splits)

lemma on_sendMessage_invalid:
  "\<not> truthy (senderId d) \<or> \<not> truthy (receiverId d) \<Longrightarrow>
   on_sendMessage e sid (Some d) s = ([], s)"
  by (auto simp add: on_sendMessage_def truthy_def split: option.splits)

lemma truthyE: "truthy v \<Longrightarrow> \<exists>x. v = Some x \<and> x \<noteq> []"
  by (auto simp: truthy_def split: option.splits)

lemma Message_in_io_to: "(r, Message m) \<in> set (io_to s room ev) \<Longrightarrow> ev = Message m"
  by (auto simp: io_to_def)

text \<open>Among sockets with distinct ids, a room broadcast reaches a socket at most once.\<close>

lemma count_io_to:
  "distinct (map fst socks) \<Longrightarrow> map_of socks h = Some sock \<Longrightarrow>
   count_list (map (\<lambda>(sid, sock). (sid, ev))
                 (filter (\<lambda>(sid, sock). in_room sid sock room) socks)) (h, ev)
     = (if in_room h sock room then 1 else 0)"
proof (induction socks)
  case Nil
  then show ?case by simp
next
  case (Cons p socks)
  obtain k v where p: "p = (k, v)" by (cases p)
  show ?case
  proof (cases "k = h")
    case True
    with Cons.prems p have v: "v = sock" and notin: "h \<notin> fst ` set socks" by auto
    have "(h, ev) \<notin> set (map (\<lambda>(sid, sock). (sid, ev))
            (filter (\<lambda>(sid, sock). in_room sid sock room) socks))"
      using notin by force
    then have "count_list (map (\<lambda>(sid, sock). (sid, ev))
            (filter (\<lambda>(sid, sock). in_room sid sock room) socks)) (h, ev) = 0"
      by (simp add: count_list_0_iff)
    then show ?thesis using p True v by simp
  next
    case False
    with Cons p show ?thesis by simp
  qed
qed

text \<open>Socket ids stay distinct: a state reached from \<open>init\<close> lists each socket once.\<close>

lemma distinct_sockets_step:
  assumes "distinct (map fst (sockets s))"
  shows "distinct (map fst (sockets (snd (step e i s))))"
proof (cases i)
  case (Connection sid)
  show ?thesis
  proof (cases "connected s sid")
    case True
    then show ?thesis using Connection assms by simp
  next
    case False
    then have "sid \<notin> fst ` set (sockets s)"
      by (simp add: connected_def map_of_eq_None_iff)
    then show ?thesis using Connection False assms by (simp add: on_connection_def)
  qed
next
  case (Join sid uid)
  then show ?thesis using assms
    by (auto simp add: on_join_def Let_def AList.distinct_map_entry split: option.splits)
next
  case (Disconnect sid)
  then show ?thesis using assms
    by (auto simp add: on_disconnect_def Let_def AList.distinct_delete split: option.splits)
next
  case (JoinConversation sid c)
  then show ?thesis using assms
    by (auto simp add: on_joinConversation_def AList.distinct_map_entry split: option.splits)
next
  case (SendMessage sid d)
  then show ?thesis using assms by (simp add: sockets_on_sendMessage)
next
  case (FetchMessages sid c)
  then show ?thesis using assms by (simp add: sockets_on_fetchMessages)
qed

lemma distinct_sockets_run:
  "distinct (map fst (sockets s)) \<Longrightarrow> distinct (map fst (sockets (snd (run e is s))))"
proof (induction "is" arbitrary: s)
  case Nil
  then show ?case by simp
next
  case (Cons i "is")
  show ?case unfolding snd_run_Cons
    by (rule Cons.IH) (rule distinct_sockets_step[OF Cons.prems])
qed

lemma distinct_sockets_reachable: "distinct (map fst (sockets (snd (run e is (init ms)))))"
  by (rule distinct_sockets_run) (simp add: init_def)

text \<open>
  What the guards of the handlers do drop: a \<open>sendMessage\<close> without sender or receiver,
  or without payload, and a \<open>join\<close> or \<open>fetchMessages\<close> whose payload lacks the field,
  emit nothing, to nobody, and leave the whole server state as it was.
\<close>

lemma missing_field_dropped:
  "(\<not> truthy (senderId d) \<or> \<not> truthy (receiverId d) \<longrightarrow>
      step e (SendMessage sid (Some d)) s = ([], s)) \<and>
   step e (SendMessage sid None) s = ([], s) \<and>
   (\<not> truthy uid \<longrightarrow> step e (Join sid uid) s = ([], s)) \<and>
   (\<not> truthy cid \<longrightarrow> step e (FetchMessages sid cid) s = ([], s))"
  by (auto simp add: on_sendMessage_invalid on_join_falsy on_fetchMessages_def truthy_def
      on_sendMessage_def split: option.splits)

lemma missing_field_dropped_by_listener:
  "(\<not> truthy uid \<longrightarrow> socket_on_join sid (Some uid) s = Inr ([], s)) \<and>
   (\<not> truthy cid \<longrightarrow> socket_on_fetchMessages e sid (Some cid) s = Inr ([], s))"
  by (auto simp add: socket_on_join_def socket_on_fetchMessages_def on_join_falsy
      on_fetchMessages_def truthy_def split: option.splits)

text \<open>A listener that destructures its parameter throws on every event without payload.\<close>

lemma no_payload_throws:
  "socket_on_join sid None s = Inl TypeError \<and>
   socket_on_joinConversation sid None s = Inl TypeError \<and>
   socket_on_fetchMessages e sid None s = Inl TypeError"
  by (simp add: socket_on_join_def socket_on_joinConversation_def socket_on_fetchMessages_def)

text \<open>
  C8 does not hold of the code. A \<open>join\<close> and a \<open>fetchMessages\<close> that arrive without
  payload are not dropped: the listener throws before its guard is reached and the
  server ends, with its connections and its presence registry. The \<open>sendMessage\<close>
  listener, which tests its payload, drops the same event and leaves the state as it
  was.
\<close>

theorem C8_no_payload_throws:
  "socket_on_join ''h1'' None two_sockets = Inl TypeError \<and>
   socket_on_fetchMessages env_ok ''h1'' None two_sockets = Inl TypeError \<and>
   on_sendMessage env_ok ''h1'' None two_sockets = ([], two_sockets) \<and>
   socket_on_join ''h1'' (Some None) two_sockets = Inr ([], two_sockets)"
  by (simp add: socket_on_join_def socket_on_fetchMessages_def on_sendMessage_def on_join_def)

text \<open>
  C4. When saving fails, the handler emits one \<open>messageError\<close>, to the sender, and
  nothing else, and the state is unchanged. In every case a \<open>message\<close> event is emitted
  only for a message that was saved.
\<close>

theorem C4_persistence_failure_isolated:
  assumes "truthy (senderId d)" "truthy (receiverId d)"
  shows "(\<not> db_ok e \<longrightarrow>
            on_sendMessage e sid (Some d) s =
              ([(sid, MessageError ''Failed to send message'')], s)) \<and>
         (\<forall>r m. (r, Message m) \<in> set (fst (on_sendMessage e sid (Some d) s)) \<longrightarrow>
            db_ok e \<and> messages (snd (on_sendMessage e sid (Some d) s)) = messages s @ [m])"
proof -
  obtain a b where ab: "senderId d = Some a" "a \<noteq> []" "receiverId d = Some b" "b \<noteq> []"
    using assms truthyE by blast
  note eq = on_sendMessage_valid[OF ab(1) ab(3) ab(2) ab(4), of e sid s]
  show ?thesis
    unfolding eq Let_def
    by (auto dest: Message_in_io_to split: option.splits if_splits)
qed

theorem C4_witness:
  "truthy (senderId hello) \<and> truthy (receiverId hello) \<and> \<not> db_ok env_down \<and>
   on_sendMessage env_down ''ha'' (Some hello) receiver_in_group =
     ([(''ha'', MessageError ''Failed to send message'')], receiver_in_group) \<and>
   (''hb'', Message hello_message)
     \<in> set (fst (on_sendMessage env_ok ''ha'' (Some hello) receiver_in_group)) \<and>
   messages (snd (on_sendMessage env_ok ''ha'' (Some hello) receiver_in_group)) =
     messages receiver_in_group @ [hello_message]"
proof -
  have a: "truthy (senderId hello)" "truthy (receiverId hello)" by (simp_all add: send_defs)
  have b: "\<not> db_ok env_down" by (simp add: send_defs)
  have c: "(''hb'', Message hello_message)
             \<in> set (fst (on_sendMessage env_ok ''ha'' (Some hello) receiver_in_group))"
    by (simp add: send_defs)
  show ?thesis
    using a b c
      C4_persistence_failure_isolated[OF a, of env_down "''ha''" receiver_in_group]
      C4_persistence_failure_isolated[OF a, of env_ok "''ha''" receiver_in_group]
    by blast
qed

text \<open>
  C3. Whatever conversation id the client puts in the payload, the handler does the
  same: the saved message and every delivered message carry the conversation id
  computed from sender and receiver.
\<close>

theorem C3_client_conversationId_ignored:
  assumes "senderId d = Some a" "receiverId d = Some b" "a \<noteq> []" "b \<noteq> []"
  shows "on_sendMessage e sid (Some (d\<lparr>conversationId := c\<rparr>)) s =
           on_sendMessage e sid (Some d) s \<and>
         (db_ok e \<longrightarrow>
            (\<exists>m. messages (snd (on_sendMessage e sid (Some d) s)) = messages s @ [m] \<and>
                 m_conversationId m = Some (getConversationId a b))) \<and>
         (\<forall>r m. (r, Message m) \<in> set (fst (on_sendMessage e sid (Some d) s)) \<longrightarrow>
                  m_conversationId m = Some (getConversationId a b))"
proof -
  have 1: "on_sendMessage e sid (Some (d\<lparr>conversationId := c\<rparr>)) s =
           on_sendMessage e sid (Some d) s"
    using assms by (simp add: on_sendMessage_def)
  note eq = on_sendMessage_valid[OF assms, of e sid s]
  have 2: "db_ok e \<longrightarrow>
            (\<exists>m. messages (snd (on_sendMessage e sid (Some d) s)) = messages s @ [m] \<and>
                 m_conversationId m = Some (getConversationId a b))"
    unfolding eq Let_def by (simp add: new_Message_def)
  have 3: "\<forall>r m. (r, Message m) \<in> set (fst (on_sendMessage e sid (Some d) s)) \<longrightarrow>
                  m_conversationId m = Some (getConversationId a b)"
    unfolding eq Let_def
    by (auto simp add: new_Message_def dest!: Message_in_io_to split: option.splits if_splits)
  show ?thesis using 1 2 3 by blast
qed

theorem C3_witness:
  "senderId hello = Some ''a'' \<and> receiverId hello = Some ''b'' \<and> ''a'' \<noteq> [] \<and> ''b'' \<noteq> [] \<and>
   db_ok env_ok \<and>
   (''hb'', Message hello_message)
     \<in> set (fst (on_sendMessage env_ok ''ha'' (Some hello) receiver_in_group)) \<and>
   on_sendMessage env_ok ''ha'' (Some (hello\<lparr>conversationId := Some ''x-y''\<rparr>)) receiver_in_group
     = on_sendMessage env_ok ''ha'' (Some hello) receiver_in_group \<and>
   m_conversationId hello_message = Some (getConversationId ''a'' ''b'')"
proof -
  have a: "senderId hello = Some ''a''" "receiverId hello = Some ''b''" "''a'' \<noteq> []"
    "''b'' \<noteq> []"
    by (simp_all add: send_defs)
  have b: "db_ok env_ok" by (simp add: send_defs)
  have c: "(''hb'', Message hello_message)
             \<in> set (fst (on_sendMessage env_ok ''ha'' (Some hello) receiver_in_group))"
    by (simp add: send_defs)
  show ?thesis
    using a b c
      C3_client_conversationId_ignored[OF a, of env_ok "''ha''" "Some ''x-y''" receiver_in_group]
    by blast
qed

text \<open>
  C5, as stated, fails. The receiver's socket \<open>hb\<close> is registered for \<open>b\<close> and has joined
  the conversation room: it gets the message from the room broadcast and once more
  from the direct delivery.
\<close>

theorem C5_counterexample:
  "lookup receiver_in_group ''b'' = Some ''hb'' \<and>
   (''hb'', Message hello_message)
     \<in> set (io_to receiver_in_group ''a-b'' (Message hello_message)) \<and>
   on_sendMessage env_ok ''ha'' (Some hello) receiver_in_group =
     ([(''hb'', Message hello_message), (''hb'', Message hello_message)],
      receiver_in_group\<lparr>messages := [hello_message]\<rparr>)"
  by (simp add: send_defs)

text \<open>
  C5, amended. For an accepted and saved message whose receiver has a registered
  handle, the handler broadcasts to the conversation room and then delivers to that
  handle, member of the room or not. A connected receiver handle gets the message
  twice when it is in the room and once when it is not.
\<close>

theorem C5_direct_delivery_unconditional:
  assumes "senderId d = Some a" "receiverId d = Some b" "a \<noteq> []" "b \<noteq> []" "db_ok e"
    and "lookup s b = Some h" "h \<noteq> []"
    and "distinct (map fst (sockets s))" "map_of (sockets s) h = Some sock"
  shows "let cid = getConversationId a b;
             msg = new_Message e (d\<lparr>conversationId := Some cid\<rparr>);
             out = fst (on_sendMessage e sid (Some d) s)
         in out = io_to s cid (Message msg) @ io_to s h (Message msg) \<and>
            (h, Message msg) \<in> set (io_to s h (Message msg)) \<and>
            count_list out (h, Message msg) = (if in_room h sock cid then 2 else 1)"
proof -
  define cid where "cid = getConversationId a b"
  define msg where "msg = new_Message e (d\<lparr>conversationId := Some cid\<rparr>)"
  have out: "fst (on_sendMessage e sid (Some d) s) =
               io_to s cid (Message msg) @ io_to s h (Message msg)"
    using assms(5,6,7) unfolding on_sendMessage_valid[OF assms(1-4)]
    by (simp add: Let_def cid_def msg_def)
  have own: "in_room h sock h" by (simp add: in_room_def)
  have c1: "count_list (io_to s cid (Message msg)) (h, Message msg) =
              (if in_room h sock cid then 1 else 0)"
    unfolding io_to_def using assms(8,9) by (rule count_io_to)
  have c2: "count_list (io_to s h (Message msg)) (h, Message msg) = 1"
    unfolding io_to_def using count_io_to[OF assms(8,9), of "Message msg" h] own by simp
  have mem: "(h, Message msg) \<in> set (io_to s h (Message msg))"
    using c2 count_list_0_iff[of "io_to s h (Message msg)" "(h, Message msg)"] by force
  show ?thesis
    unfolding Let_def cid_def[symmetric] msg_def[symmetric] out using c1 c2 mem by simp
qed

theorem C5_witness:
  "senderId hello = Some ''a'' \<and> receiverId hello = Some ''b'' \<and> ''a'' \<noteq> [] \<and> ''b'' \<noteq> [] \<and>
   db_ok env_ok \<and> lookup receiver_in_group ''b'' = Some ''hb'' \<and> ''hb'' \<noteq> [] \<and>
   distinct (map fst (sockets receiver_in_group)) \<and>
   map_of (sockets receiver_in_group) ''hb'' = Some \<lparr>userId = Some ''b'', rooms = {''a-b''}\<rparr> \<and>
   map_of (sockets receiver_online) ''hb'' = Some \<lparr>userId = Some ''b'', rooms = {}\<rparr> \<and>
   count_list (fst (on_sendMessage env_ok ''ha'' (Some hello) receiver_in_group))
     (''hb'', Message hello_message) = 2 \<and>
   count_list (fst (on_sendMessage env_ok ''ha'' (Some hello) receiver_online))
     (''hb'', Message hello_message) = 1"
proof -
  have a: "senderId hello = Some ''a''" "receiverId hello = Some ''b''" "''a'' \<noteq> []"
    "''b'' \<noteq> []" "db_ok env_ok"
    by (simp_all add: send_defs)
  have b: "lookup receiver_in_group ''b'' = Some ''hb''" "''hb'' \<noteq> []"
    "distinct (map fst (sockets receiver_in_group))"
    "map_of (sockets receiver_in_group) ''hb'' = Some \<lparr>userId = Some ''b'', rooms = {''a-b''}\<rparr>"
    by (simp_all add: send_defs)
  have c: "lookup receiver_online ''b'' = Some ''hb''" "''hb'' \<noteq> []"
    "distinct (map fst (sockets receiver_online))"
    "map_of (sockets receiver_online) ''hb'' = Some \<lparr>userId = Some ''b'', rooms = {}\<rparr>"
    by (simp_all add: send_defs)
  have m: "new_Message env_ok (hello\<lparr>conversationId := Some (getConversationId ''a'' ''b'')\<rparr>)
             = hello_message"
    by (simp add: send_defs)
  have r: "in_room ''hb'' \<lparr>userId = Some ''b'', rooms = {''a-b''}\<rparr> (getConversationId ''a'' ''b'')"
    "\<not> in_room ''hb'' \<lparr>userId = Some ''b'', rooms = {}\<rparr> (getConversationId ''a'' ''b'')"
    by (simp_all add: send_defs)
  have w1: "count_list (fst (on_sendMessage env_ok ''ha'' (Some hello) receiver_in_group))
              (''hb'', Message hello_message) = 2"
    unfolding C5_direct_delivery_unconditional[OF a b, of "''ha''", unfolded Let_def m,
        THEN conjunct2, THEN conjunct2]
    using r(1) by simp
  have w2: "count_list (fst (on_sendMessage env_ok ''ha'' (Some hello) receiver_online))
              (''hb'', Message hello_message) = 1"
    unfolding C5_direct_delivery_unconditional[OF a c, of "''ha''", unfolded Let_def m,
        THEN conjunct2, THEN conjunct2]
    using r(2) by simp
  show ?thesis using a b c(4) w1 w2 by blast
qed

section \<open>Message history\<close>

lemma sorted_history: "sorted (map m_timestamp (map msg_at [i..<j]))"
proof -
  have "sorted_wrt (\<lambda>x y. m_timestamp (msg_at x) \<le> m_timestamp (msg_at y)) [i..<j]"
    by (rule sorted_wrt_mono_rel[OF _ sorted_wrt_upt]) (simp add: msg_at_def)
  then show ?thesis by (simp only: sorted_map map_map comp_def)
qed

lemma take_history: "take n (history k) = history (min n k)"
proof (cases "n \<le> k")
  case True
  then have "take n [1..<Suc k] = [1..<Suc n]" using take_upt[of 1 n "Suc k"] by simp
  then show ?thesis using True by (simp only: history_def take_map min.absorb1)
next
  case False
  then have "length (history k) \<le> n" by (simp add: history_def)
  then have "take n (history k) = history k" by (rule take_all)
  then show ?thesis using False by (simp add: min_def)
qed

lemma find_sort_limit_history:
  "find_sort_limit ''a-b'' n (history k) = history (min n k)"
proof -
  have f: "filter (\<lambda>m. m_conversationId m = Some ''a-b'') (history k) = history k"
    by (simp add: history_def msg_at_def)
  have s: "sort_key m_timestamp (history k) = history k"
    unfolding history_def by (rule sort_key_id_if_sorted) (rule sorted_history)
  show ?thesis by (simp only: find_sort_limit_def f s take_history)
qed

text \<open>
  C2, as stated, fails. Of three messages at increasing times the query with limit 2
  returns the first two, not the last two; and of 51 messages the handler returns the
  first 50, so the oldest message is in the answer and the most recent one is not.
\<close>

theorem C2_counterexample:
  "find_sort_limit ''a-b'' 2 [msg_at 1, msg_at 2, msg_at 3] = [msg_at 1, msg_at 2] \<and>
   m_timestamp (msg_at 1) < m_timestamp (msg_at 2) \<and>
   m_timestamp (msg_at 2) < m_timestamp (msg_at 3) \<and>
   step env_ok (FetchMessages ''h1'' (Some ''a-b'')) (two_sockets\<lparr>messages := history 51\<rparr>) =
     ([(''h1'', PreviousMessages ''a-b'' (history 50))], two_sockets\<lparr>messages := history 51\<rparr>) \<and>
   msg_at 1 \<in> set (history 50) \<and> msg_at 51 \<notin> set (history 50) \<and> msg_at 51 \<in> set (history 51)"
proof -
  have 1: "find_sort_limit ''a-b'' 2 [msg_at 1, msg_at 2, msg_at 3] = [msg_at 1, msg_at 2]"
    by (simp add: find_sort_limit_def msg_at_def)
  have 2: "m_timestamp (msg_at 1) < m_timestamp (msg_at 2)"
    "m_timestamp (msg_at 2) < m_timestamp (msg_at 3)"
    by (simp_all add: msg_at_def)
  have c: "connected (two_sockets\<lparr>messages := history 51\<rparr>) ''h1''" by (simp add: eval_defs)
  have 3: "step env_ok (FetchMessages ''h1'' (Some ''a-b'')) (two_sockets\<lparr>messages := history 51\<rparr>) =
     ([(''h1'', PreviousMessages ''a-b'' (history 50))], two_sockets\<lparr>messages := history 51\<rparr>)"
    using c by (simp add: on_fetchMessages_def find_sort_limit_history env_ok_def)
  have inj: "msg_at i = msg_at j \<longleftrightarrow> i = j" for i j by (auto simp add: msg_at_def)
  have 4: "msg_at 1 \<in> set (history 50)" "msg_at 51 \<notin> set (history 50)" "msg_at 51 \<in> set (history 51)"
    by (auto simp add: history_def inj)
  show ?thesis using 1 2 3 4 by blast
qed

text \<open>
  C2, amended. The query returns the first \<open>n\<close> messages of the conversation in
  ascending timestamp order, that is the \<open>n\<close> oldest ones: every returned message is
  at most as recent as every message of the conversation left out. The handler sends
  the requester the result for \<open>n = 50\<close>.
\<close>

theorem C2_fetch_returns_oldest_window:
  "(let r = find_sort_limit cid n ms;
        conv = filter (\<lambda>m. m_conversationId m = Some cid) ms
    in length r = min n (length conv) \<and>
       sorted (map m_timestamp r) \<and>
       mset r \<subseteq># mset conv \<and>
       (\<forall>x \<in># mset r. \<forall>y \<in># mset conv - mset r. m_timestamp x \<le> m_timestamp y)) \<and>
   (cid \<noteq> [] \<and> db_ok e \<longrightarrow>
      on_fetchMessages e sid (Some cid) s =
        ([(sid, PreviousMessages cid (find_sort_limit cid 50 (messages s)))], s))"
proof -
  define conv where "conv = filter (\<lambda>m. m_conversationId m = Some cid) ms"
  define xs where "xs = sort_key m_timestamp conv"
  have r: "find_sort_limit cid n ms = take n xs"
    by (simp add: find_sort_limit_def xs_def conv_def)
  have srt: "sorted (map m_timestamp (take n xs @ drop n xs))" by (simp add: xs_def)
  have ms: "mset conv = mset (take n xs) + mset (drop n xs)"
    by (metis append_take_drop_id mset_append mset_sort xs_def)
  have 1: "length (take n xs) = min n (length conv)" by (simp add: xs_def min.commute)
  have 2: "sorted (map m_timestamp (take n xs))"
    using srt by (simp only: map_append sorted_append)
  have 3: "mset (take n xs) \<subseteq># mset conv" by (simp add: ms)
  have 4: "\<forall>x \<in># mset (take n xs). \<forall>y \<in># mset conv - mset (take n xs).
             m_timestamp x \<le> m_timestamp y"
    using srt unfolding ms
    by (auto simp only: map_append sorted_append add_diff_cancel_left' set_mset_mset set_map)
  have 5: "cid \<noteq> [] \<and> db_ok e \<longrightarrow>
      on_fetchMessages e sid (Some cid) s =
        ([(sid, PreviousMessages cid (find_sort_limit cid 50 (messages s)))], s)"
    by (simp add: on_fetchMessages_def)
  show ?thesis unfolding Let_def r conv_def[symmetric] using 1 2 3 4 5 by blast
qed

theorem C2_witness:
  "find_sort_limit ''a-b'' 2 (history 3) = history 2 \<and>
   msg_at 1 \<in># mset (history 2) \<and>
   msg_at 3 \<in># mset (history 3) - mset (history 2) \<and>
   m_timestamp (msg_at 1) \<le> m_timestamp (msg_at 3) \<and>
   ''a-b'' \<noteq> [] \<and> db_ok env_ok \<and>
   on_fetchMessages env_ok ''h1'' (Some ''a-b'') (two_sockets\<lparr>messages := history 51\<rparr>) =
     ([(''h1'', PreviousMessages ''a-b'' (history 50))], two_sockets\<lparr>messages := history 51\<rparr>)"
proof -
  have r: "find_sort_limit ''a-b'' 2 (history 3) = history 2"
    by (simp add: find_sort_limit_history)
  have f: "filter (\<lambda>m. m_conversationId m = Some ''a-b'') (history 3) = history 3"
    by (simp add: history_def msg_at_def)
  have x: "msg_at 1 \<in># mset (history 2)" by (simp add: history_def)
  have h3: "history 3 = [msg_at 1, msg_at 2, msg_at 3]" and h2: "history 2 = [msg_at 1, msg_at 2]"
    by (simp_all add: history_def upt_rec msg_at_def)
  have ne: "msg_at 3 \<noteq> msg_at 1" "msg_at 3 \<noteq> msg_at 2" by (simp_all add: msg_at_def)
  have y: "msg_at 3 \<in># mset (history 3) - mset (history 2)"
    unfolding h3 h2 using ne by simp
  have h: "''a-b'' \<noteq> []" "db_ok env_ok" by (simp_all add: env_ok_def)
  have l: "find_sort_limit ''a-b'' 50 (history 51) = history 50"
    by (simp add: find_sort_limit_history)
  note t = C2_fetch_returns_oldest_window[of "''a-b''" 2 "history 3" env_ok "''h1''"
      "two_sockets\<lparr>messages := history 51\<rparr>", unfolded Let_def r f]
  have le: "m_timestamp (msg_at 1) \<le> m_timestamp (msg_at 3)" using t x y by blast
  have o: "on_fetchMessages env_ok ''h1'' (Some ''a-b'') (two_sockets\<lparr>messages := history 51\<rparr>) =
     ([(''h1'', PreviousMessages ''a-b'' (history 50))], two_sockets\<lparr>messages := history 51\<rparr>)"
    using t h l by simp
  show ?thesis using r x y le h o by blast
qed

section \<open>HTTP history\<close>

text \<open>
  C9. For an authenticated request, and a query that succeeds, the route answers with
  all messages of the collection, whatever their conversation, none left out and none
  added, ordered by descending timestamp.
\<close>

theorem C9_http_history_all_newest_first:
  assumes "authenticateJWT req" "db_ok e"
  shows "\<exists>ms. chat_get authenticateJWT e req s = Json ms \<and> mset ms = mset (messages s) \<and>
           length ms = length (messages s) \<and>
           sorted_wrt (\<lambda>x y. m_timestamp x \<ge> m_timestamp y) ms"
proof -
  have "sorted (map (\<lambda>m. - m_timestamp m) (find_sort_desc (messages s)))"
    by (simp add: find_sort_desc_def)
  then have "sorted_wrt (\<lambda>x y. m_timestamp x \<ge> m_timestamp y) (find_sort_desc (messages s))"
    by (simp add: sorted_map)
  then show ?thesis using assms by (simp add: chat_get_def find_sort_desc_def)
qed

theorem C9_witness:
  "(\<lambda>req. req = ''valid token'') ''valid token'' \<and> db_ok env_ok \<and>
   chat_get (\<lambda>req. req = ''valid token'') env_ok ''valid token''
      (init [msg_at 2, hello_message, msg_at 1])
     = Json [hello_message, msg_at 2, msg_at 1] \<and>
   (\<exists>ms. chat_get (\<lambda>req. req = ''valid token'') env_ok ''valid token''
            (init [msg_at 2, hello_message, msg_at 1]) = Json ms \<and>
         mset ms = mset (messages (init [msg_at 2, hello_message, msg_at 1])))"
proof -
  have a: "(\<lambda>req. req = ''valid token'') ''valid token''" by simp
  have b: "db_ok env_ok" by (simp add: env_ok_def)
  have c: "chat_get (\<lambda>req. req = ''valid token'') env_ok ''valid token''
      (init [msg_at 2, hello_message, msg_at 1])
     = Json [hello_message, msg_at 2, msg_at 1]"
    by (simp add: chat_get_def find_sort_desc_def env_ok_def init_def msg_at_def
        hello_message_def)
  show ?thesis
    using a b c
      C9_http_history_all_newest_first[of "\<lambda>req. req = ''valid token''" "''valid token''" env_ok
        "init [msg_at 2, hello_message, msg_at 1]", OF a b]
    by blast
qed

end
